theory Spec2Isabelle
  imports Main "HOL-Library.Word"
begin

unbundle bit_operations_syntax

section \<open>Scalars of int\_endian.h\<close>

text \<open>
  A fixed-width scalar is the bit pattern it occupies: \<open>int16_t\<close> and \<open>uint16_t\<close> are both
  \<open>16 word\<close>, read with \<^const>\<open>sint\<close> or \<^const>\<open>uint\<close>; a \<open>float\<close> is the 32 bits and a
  \<open>double\<close> the 64 bits of its IEEE-754 encoding, since the header only ever moves those
  bits through a union and performs no floating-point arithmetic.

  The header is configured by the preprocessor. The embedding follows the portable
  branch of the three reversal primitives (neither \<open>__ARM_ARCH\<close> nor \<open>__UNROLLED_SWAP__\<close>
  defined) and, for the 64-bit one, also the branch built from two 32-bit reversals; the
  inline-assembly branches and the unrolled pointer branches are left out. The value of
  \<open>__BYTE_ORDER__ == __ORDER_LITTLE_ENDIAN__\<close> is the parameter \<open>host_le\<close> of every
  conversion (the header treats every host that is not little-endian as big-endian), and
  the template argument \<open>_is_big_endian\<close> is the parameter \<open>is_big_endian\<close>.
\<close>

type_synonym uint8_t = "8 word"
type_synonym int8_t = "8 word"
type_synonym uint16_t = "16 word"
type_synonym uint32_t = "32 word"
type_synonym uint64_t = "64 word"
type_synonym float_bits = "32 word"
type_synonym double_bits = "64 word"

text \<open>Lines 15 to 18: the 8-bit tagged names are typedefs of the native 8-bit types.\<close>

type_synonym int8_be = int8_t
type_synonym uint8_be = uint8_t
type_synonym int8_le = int8_t
type_synonym uint8_le = uint8_t

text \<open>
  Initialising, assigning and reading an object of a native scalar type, which is all
  that \<open>uint8_be x = v\<close>, \<open>x = v\<close> and the use of \<open>x\<close> as a value do once the typedef is
  expanded: no member function of the header is involved.
\<close>

definition native_init :: "'a::len word \<Rightarrow> 'a word" where
  "native_init v = v"

definition native_assign :: "'a::len word \<Rightarrow> 'a word \<Rightarrow> 'a word" where
  "native_assign x v = v"

definition native_read :: "'a::len word \<Rightarrow> 'a word" where
  "native_read x = x"

section \<open>Byte-reversal primitives\<close>

text \<open>
  \<open>_generic_swap16\<close>, line 41. The operands of \<open>&\<close>, \<open><<\<close>, \<open>>>\<close> and \<open>|\<close> are promoted to
  \<open>int\<close> (32 bits; no intermediate value exceeds \<open>0xff00\<close>), and the \<open>return\<close> converts the
  result to \<open>uint16_t\<close>.
\<close>

definition generic_swap16 :: "uint16_t \<Rightarrow> uint16_t" where
  "generic_swap16 v =
     (let p = (ucast v :: 32 word)
      in ucast (push_bit 8 (p AND 0xff) OR drop_bit 8 (p AND 0xff00)))"

text \<open>
  The loop of lines 63 to 66 and of lines 97 to 100 (the two bodies are the same text, at
  \<open>uint32_t\<close> and at \<open>uint64_t\<close>): the first argument counts the iterations left.
\<close>

fun swap_loop :: "nat \<Rightarrow> 'a::len word \<Rightarrow> 'a word \<Rightarrow> 'a word" where
  "swap_loop 0 ret tmp = ret"
| "swap_loop (Suc n) ret tmp =
     swap_loop n (push_bit 8 ret OR (tmp AND 0xff)) (drop_bit 8 tmp)"

definition generic_swap32 :: "uint32_t \<Rightarrow> uint32_t" where
  "generic_swap32 v = swap_loop 4 0 v"

definition generic_swap64 :: "uint64_t \<Rightarrow> uint64_t" where
  "generic_swap64 v = swap_loop 8 0 v"

text \<open>
  \<open>_generic_swap64\<close> under \<open>__ARM_ARCH >= 7\<close>, lines 74 to 78: two 32-bit reversals. On that
  target \<open>_generic_swap32\<close> is the \<open>rev\<close> instruction, taken here as the parameter \<open>swap32\<close>.
\<close>

definition generic_swap64_armv7 :: "(uint32_t \<Rightarrow> uint32_t) \<Rightarrow> uint64_t \<Rightarrow> uint64_t" where
  "generic_swap64_armv7 swap32 v =
     (let vlow = swap32 (ucast (v AND 0xffffffff));
          vhigh = swap32 (ucast (drop_bit 32 v))
      in push_bit 32 (ucast vlow :: uint64_t) OR ucast vhigh)"

section \<open>Byte sequences\<close>

text \<open>
  The vocabulary of the specification: the bytes of a pattern from the least significant
  one, the pattern rebuilt from such a sequence, the reversal that exchanges byte \<open>0\<close> with
  byte \<open>N - 1\<close>, byte \<open>1\<close> with byte \<open>N - 2\<close> and so on, the content of a buffer that holds
  a value in a given byte order, and the bytes that an object occupies in the memory of
  the host.
\<close>

definition byte_at :: "nat \<Rightarrow> 'a::len word \<Rightarrow> 8 word" where
  "byte_at i w = ucast (drop_bit (8 * i) w)"

definition bytes_lsb_first :: "nat \<Rightarrow> 'a::len word \<Rightarrow> 8 word list" where
  "bytes_lsb_first n w = map (\<lambda>i. byte_at i w) [0..<n]"

fun of_bytes_lsb_first :: "8 word list \<Rightarrow> 'a::len word" where
  "of_bytes_lsb_first [] = 0"
| "of_bytes_lsb_first (b # bs) = ucast b OR push_bit 8 (of_bytes_lsb_first bs)"

definition reverse_bytes :: "nat \<Rightarrow> 'a::len word \<Rightarrow> 'a word" where
  "reverse_bytes n w = of_bytes_lsb_first (rev (bytes_lsb_first n w))"

definition buffer_bytes :: "bool \<Rightarrow> nat \<Rightarrow> 'a::len word \<Rightarrow> 8 word list" where
  "buffer_bytes big_endian n v =
     (if big_endian then rev (bytes_lsb_first n v) else bytes_lsb_first n v)"

definition memory_bytes :: "bool \<Rightarrow> nat \<Rightarrow> 'a::len word \<Rightarrow> 8 word list" where
  "memory_bytes host_le n w = buffer_bytes (\<not> host_le) n w"

section \<open>The integer wrapper\<close>

text \<open>\<open>template <typename _T, bool _is_big_endian> class _generic_endian\<close>: one field.\<close>

record 't generic_endian =
  e_raw :: 't

definition sizeof_T :: "'a::len word \<Rightarrow> nat" where
  "sizeof_T v = LENGTH('a) div 8"

text \<open>
  The conditional expression of lines 116 to 120 and 124 to 128. Its operands have the
  types \<open>uint16_t\<close>, \<open>uint32_t\<close>, \<open>uint64_t\<close> and \<open>int\<close>, so its type is \<open>uint64_t\<close>; each call
  converts \<open>v\<close> to the parameter type of the primitive, and the assignment to \<open>ret\<close>
  converts the 64-bit result back to \<open>_T\<close>.
\<close>

definition swap_sized :: "'a::len word \<Rightarrow> 'a word" where
  "swap_sized v =
     ucast (if sizeof_T v = 2 then (ucast (generic_swap16 (ucast v)) :: uint64_t)
            else if sizeof_T v = 4 then ucast (generic_swap32 (ucast v))
            else if sizeof_T v = 8 then generic_swap64 (ucast v)
            else 0)"

definition endian_byte_order :: "bool \<Rightarrow> bool \<Rightarrow> 'a::len word \<Rightarrow> 'a word" where
  "endian_byte_order host_le is_big_endian v =
     (let ret = v
      in if host_le then (if is_big_endian then swap_sized v else ret)
         else (if \<not> is_big_endian then swap_sized v else ret))"

definition endian_default :: "'a::len word generic_endian" where
  "endian_default = \<lparr>e_raw = 0\<rparr>"

definition endian_construct :: "bool \<Rightarrow> bool \<Rightarrow> 'a::len word \<Rightarrow> 'a word generic_endian" where
  "endian_construct host_le is_big_endian val =
     \<lparr>e_raw = endian_byte_order host_le is_big_endian val\<rparr>"

definition endian_copy :: "'a::len word generic_endian \<Rightarrow> 'a word generic_endian" where
  "endian_copy v = \<lparr>e_raw = e_raw v\<rparr>"

definition endian_assign ::
  "bool \<Rightarrow> bool \<Rightarrow> 'a::len word generic_endian \<Rightarrow> 'a word \<Rightarrow> 'a word generic_endian" where
  "endian_assign host_le is_big_endian this v =
     this\<lparr>e_raw := endian_byte_order host_le is_big_endian v\<rparr>"

definition endian_read :: "bool \<Rightarrow> bool \<Rightarrow> 'a::len word generic_endian \<Rightarrow> 'a word" where
  "endian_read host_le is_big_endian this = endian_byte_order host_le is_big_endian (e_raw this)"

definition endian_raw :: "'a::len word generic_endian \<Rightarrow> 'a word" where
  "endian_raw this = e_raw this"

section \<open>The float wrapper\<close>

record generic_float =
  f_raw :: float_bits

text \<open>
  \<open>_generic_float::byte_order\<close>, lines 188 to 203. The union \<open>ret\<close> is declared without an
  initialiser and written only in the branch that swaps: it is \<open>None\<close> until then. Line 201
  reads \<open>ret.i\<close> in every case; where nothing was written the read yields the indeterminate
  content of the local, the parameter \<open>garbage\<close>.
\<close>

definition float_byte_order :: "bool \<Rightarrow> bool \<Rightarrow> uint32_t \<Rightarrow> float_bits \<Rightarrow> float_bits" where
  "float_byte_order host_le is_big_endian garbage v =
     (let val_i = v;
          ret_i = (if host_le then (if is_big_endian then Some (generic_swap32 val_i) else None)
                   else (if \<not> is_big_endian then Some (generic_swap32 val_i) else None));
          val_i = (case ret_i of Some r \<Rightarrow> r | None \<Rightarrow> garbage)
      in val_i)"

definition float_default :: "bool \<Rightarrow> bool \<Rightarrow> uint32_t \<Rightarrow> generic_float" where
  "float_default host_le is_big_endian garbage =
     (let f = 0 in \<lparr>f_raw = float_byte_order host_le is_big_endian garbage f\<rparr>)"

definition float_construct :: "bool \<Rightarrow> bool \<Rightarrow> uint32_t \<Rightarrow> float_bits \<Rightarrow> generic_float" where
  "float_construct host_le is_big_endian garbage val =
     \<lparr>f_raw = float_byte_order host_le is_big_endian garbage val\<rparr>"

definition float_copy :: "generic_float \<Rightarrow> generic_float" where
  "float_copy v = \<lparr>f_raw = f_raw v\<rparr>"

definition float_assign ::
  "bool \<Rightarrow> bool \<Rightarrow> uint32_t \<Rightarrow> generic_float \<Rightarrow> float_bits \<Rightarrow> generic_float" where
  "float_assign host_le is_big_endian garbage this v =
     this\<lparr>f_raw := float_byte_order host_le is_big_endian garbage v\<rparr>"

definition float_read :: "bool \<Rightarrow> bool \<Rightarrow> uint32_t \<Rightarrow> generic_float \<Rightarrow> float_bits" where
  "float_read host_le is_big_endian garbage this =
     float_byte_order host_le is_big_endian garbage (f_raw this)"

definition float_raw :: "generic_float \<Rightarrow> float_bits" where
  "float_raw this = f_raw this"

section \<open>The double wrapper\<close>

record generic_double =
  d_raw :: double_bits

text \<open>
  \<open>_generic_double::byte_order\<close>, lines 236 to 250. The swapped pattern goes to \<open>ret.i\<close>, and
  line 249 returns \<open>val.f\<close>, which still holds the argument; \<open>ret\<close> is never read.
\<close>

definition double_byte_order :: "bool \<Rightarrow> bool \<Rightarrow> double_bits \<Rightarrow> double_bits" where
  "double_byte_order host_le is_big_endian v =
     (let val_i = v;
          ret_i = (if host_le then (if is_big_endian then Some (generic_swap64 val_i) else None)
                   else (if \<not> is_big_endian then Some (generic_swap64 val_i) else None))
      in val_i)"

definition double_default :: "bool \<Rightarrow> bool \<Rightarrow> generic_double" where
  "double_default host_le is_big_endian =
     (let f = 0 in \<lparr>d_raw = double_byte_order host_le is_big_endian f\<rparr>)"

definition double_construct :: "bool \<Rightarrow> bool \<Rightarrow> double_bits \<Rightarrow> generic_double" where
  "double_construct host_le is_big_endian val =
     \<lparr>d_raw = double_byte_order host_le is_big_endian val\<rparr>"

definition double_copy :: "generic_double \<Rightarrow> generic_double" where
  "double_copy v = \<lparr>d_raw = d_raw v\<rparr>"

definition double_assign ::
  "bool \<Rightarrow> bool \<Rightarrow> generic_double \<Rightarrow> double_bits \<Rightarrow> generic_double" where
  "double_assign host_le is_big_endian this v =
     this\<lparr>d_raw := double_byte_order host_le is_big_endian v\<rparr>"

definition double_read :: "bool \<Rightarrow> bool \<Rightarrow> generic_double \<Rightarrow> double_bits" where
  "double_read host_le is_big_endian this = double_byte_order host_le is_big_endian (d_raw this)"

definition double_raw :: "generic_double \<Rightarrow> double_bits" where
  "double_raw this = d_raw this"

section \<open>The reversal primitives, bit by bit\<close>

lemma mask8: "(0xff :: 'a::len word) = mask 8"
  by (simp add: mask_eq_exp_minus_1)

lemma mask_ff00: "(0xff00 :: 32 word) = push_bit 8 (mask 8)"
  by (simp add: mask_eq_exp_minus_1)

text \<open>
  After \<open>k\<close> iterations the low \<open>k\<close> bytes of the result are the low \<open>k\<close> bytes of \<open>tmp\<close> in
  reverse order, and the former content of \<open>ret\<close> has moved up by \<open>k\<close> bytes.
\<close>

lemma bit_swap_loop:
  "bit (swap_loop k ret tmp) n \<longleftrightarrow>
     n < LENGTH('a) \<and>
     (if n < 8 * k then bit tmp (8 * (k - 1 - n div 8) + n mod 8) else bit ret (n - 8 * k))"
  for ret tmp :: "'a::len word"
proof (induction k arbitrary: ret tmp)
  case 0
  show ?case by (auto dest: bit_imp_le_length)
next
  case (Suc k)
  let ?ret = "push_bit 8 ret OR (tmp AND 0xff)"
  have step: "bit (swap_loop (Suc k) ret tmp) n \<longleftrightarrow>
     n < LENGTH('a) \<and>
     (if n < 8 * k then bit (drop_bit 8 tmp) (8 * (k - 1 - n div 8) + n mod 8)
      else bit ?ret (n - 8 * k))"
    by (simp only: swap_loop.simps Suc.IH)
  consider (lo) "n < 8 * k" | (mid) "8 * k \<le> n" "n < 8 * k + 8" | (hi) "8 * k + 8 \<le> n"
    by linarith
  then show ?case
  proof cases
    case lo
    then have "n div 8 < k" by simp
    then have e: "8 + (8 * (k - 1 - n div 8) + n mod 8) = 8 * (Suc k - 1 - n div 8) + n mod 8"
      by simp
    have "bit (drop_bit 8 tmp) (8 * (k - 1 - n div 8) + n mod 8)
          = bit tmp (8 * (Suc k - 1 - n div 8) + n mod 8)"
      by (simp only: bit_drop_bit_eq o_apply e)
    moreover from lo have "n < 8 * Suc k" by simp
    ultimately show ?thesis
      using lo by (simp only: step if_True)
  next
    case mid
    then have d: "n div 8 = k" by simp
    from mid have m: "n mod 8 = n - 8 * k"
      by (simp add: d modulo_nat_def)
    from mid have small: "n - 8 * k < 8" by simp
    have "bit ?ret (n - 8 * k) = bit tmp (n - 8 * k)"
      using small by (auto simp add: bit_simps mask8 dest: bit_imp_le_length)
    moreover have "8 * (Suc k - 1 - n div 8) + n mod 8 = n - 8 * k"
      by (simp add: d m)
    moreover from mid have "n < 8 * Suc k" "\<not> n < 8 * k" by simp_all
    ultimately show ?thesis
      by (simp only: step if_True if_False)
  next
    case hi
    then have big: "8 \<le> n - 8 * k" and e: "n - 8 * k - 8 = n - 8 * Suc k" by simp_all
    have "n < LENGTH('a) \<Longrightarrow> bit ?ret (n - 8 * k) = bit ret (n - 8 * Suc k)"
      using big e by (auto simp add: bit_simps mask8)
    moreover from hi have "\<not> n < 8 * Suc k" "\<not> n < 8 * k" by simp_all
    ultimately show ?thesis
      by (auto simp only: step if_False)
  qed
qed

lemma bit_swap32:
  "bit (generic_swap32 v) n \<longleftrightarrow> n < 32 \<and> bit v (8 * (3 - n div 8) + n mod 8)"
  by (simp add: generic_swap32_def bit_swap_loop)

lemma bit_swap64:
  "bit (generic_swap64 v) n \<longleftrightarrow> n < 64 \<and> bit v (8 * (7 - n div 8) + n mod 8)"
  by (simp add: generic_swap64_def bit_swap_loop)

lemma bit_swap16:
  "bit (generic_swap16 v) n \<longleftrightarrow> n < 16 \<and> bit v (8 * (1 - n div 8) + n mod 8)"
proof -
  consider (lo) "n < 8" | (mid) "8 \<le> n" "n < 16" | (hi) "16 \<le> n"
    by linarith
  then show ?thesis
  proof cases
    case lo
    then show ?thesis
      by (simp add: generic_swap16_def Let_def bit_simps mask8 mask_ff00)
  next
    case mid
    then have d: "n div 8 = 1" by simp
    from mid have m: "n mod 8 = n - 8"
      by (simp add: d modulo_nat_def)
    from mid have "n - 8 < 8" by simp
    with mid d m show ?thesis
      by (simp add: generic_swap16_def Let_def bit_simps mask8 mask_ff00)
  next
    case hi
    then show ?thesis
      by (simp add: generic_swap16_def Let_def bit_simps mask8 mask_ff00)
  qed
qed

text \<open>The index map \<open>n \<mapsto> 8 * (k - 1 - n div 8) + n mod 8\<close> is an involution below \<open>8 * k\<close>.\<close>

lemma rev_index:
  fixes n k :: nat
  assumes "n < 8 * k"
  shows "8 * (k - 1 - n div 8) + n mod 8 < 8 * k"
    and "8 * (k - 1 - (8 * (k - 1 - n div 8) + n mod 8) div 8)
           + (8 * (k - 1 - n div 8) + n mod 8) mod 8 = n"
proof -
  from assms have d: "n div 8 < k" by simp
  then have "8 * (k - 1 - n div 8) + 8 \<le> 8 * k" by simp
  moreover have "n mod 8 < 8" by simp
  ultimately show "8 * (k - 1 - n div 8) + n mod 8 < 8 * k" by linarith
  have "(8 * (k - 1 - n div 8) + n mod 8) div 8 = k - 1 - n div 8" by simp
  moreover have "(8 * (k - 1 - n div 8) + n mod 8) mod 8 = n mod 8" by simp
  moreover from d have "k - 1 - (k - 1 - n div 8) = n div 8" by simp
  ultimately show "8 * (k - 1 - (8 * (k - 1 - n div 8) + n mod 8) div 8)
      + (8 * (k - 1 - n div 8) + n mod 8) mod 8 = n"
    by simp
qed

lemma swap16_twice: "generic_swap16 (generic_swap16 x) = x"
proof (rule bit_word_eqI)
  fix n assume "n < LENGTH(16)"
  then have n: "n < 8 * 2" by simp
  show "bit (generic_swap16 (generic_swap16 x)) n = bit x n"
    using rev_index [OF n] n by (simp add: bit_swap16)
qed

lemma swap32_twice: "generic_swap32 (generic_swap32 x) = x"
proof (rule bit_word_eqI)
  fix n assume "n < LENGTH(32)"
  then have n: "n < 8 * 4" by simp
  show "bit (generic_swap32 (generic_swap32 x)) n = bit x n"
    using rev_index [OF n] n by (simp add: bit_swap32)
qed

lemma swap64_twice: "generic_swap64 (generic_swap64 x) = x"
proof (rule bit_word_eqI)
  fix n assume "n < LENGTH(64)"
  then have n: "n < 8 * 8" by simp
  show "bit (generic_swap64 (generic_swap64 x)) n = bit x n"
    using rev_index [OF n] n by (simp add: bit_swap64)
qed

text \<open>
  C4. Each byte-reversal primitive is its own inverse, on every 16-bit, every 32-bit and
  every 64-bit pattern.
\<close>

theorem generic_swap_self_inverse:
  "generic_swap16 (generic_swap16 x) = x
   \<and> generic_swap32 (generic_swap32 y) = y
   \<and> generic_swap64 (generic_swap64 z) = z"
  by (simp only: swap16_twice swap32_twice swap64_twice)

text \<open>
  The ARMv7 branch of the 64-bit primitive computes the same function as the portable
  loop whenever its 32-bit reversal does.
\<close>

lemma mask32: "(0xffffffff :: 64 word) = mask 32"
  by (simp add: mask_eq_exp_minus_1)

lemma swap64_armv7_portable: "generic_swap64_armv7 generic_swap32 v = generic_swap64 v"
proof (rule bit_word_eqI)
  fix n assume "n < LENGTH(64)"
  then have n: "n < 64" by simp
  let ?vlow = "generic_swap32 (ucast (v AND 0xffffffff))"
  let ?vhigh = "generic_swap32 (ucast (drop_bit 32 v))"
  have b: "bit (generic_swap64_armv7 generic_swap32 v) n
           \<longleftrightarrow> (32 \<le> n \<and> bit ?vlow (n - 32)) \<or> (n < 32 \<and> bit ?vhigh n)"
    using n by (auto simp add: generic_swap64_armv7_def Let_def bit_simps dest: bit_imp_le_length)
  show "bit (generic_swap64_armv7 generic_swap32 v) n = bit (generic_swap64 v) n"
  proof (cases "n < 32")
    case True
    then have d: "n div 8 < 4" by simp
    then have e: "32 + (8 * (3 - n div 8) + n mod 8) = 8 * (7 - n div 8) + n mod 8"
      by simp
    have "8 * (3 - n div 8) + n mod 8 < 32"
      using rev_index(1) [of n 4] True by simp
    with True n show ?thesis
      by (simp add: b bit_swap32 bit_swap64 bit_simps e)
  next
    case False
    with n have ge: "32 \<le> n" and lt: "n - 32 < 32" by simp_all
    from ge have dm: "(n - 32) div 8 = n div 8 - 4" "(n - 32) mod 8 = n mod 8"
      by (simp_all add: le_div_geq le_mod_geq)
    from ge n have "4 \<le> n div 8" "n div 8 < 8" by simp_all
    then have e: "8 * (3 - (n div 8 - 4)) + n mod 8 = 8 * (7 - n div 8) + n mod 8"
      by simp
    have "8 * (3 - (n - 32) div 8) + (n - 32) mod 8 < 32"
      using rev_index(1) [of "n - 32" 4] lt by simp
    then have "8 * (7 - n div 8) + n mod 8 < 32"
      by (simp only: dm e)
    with False ge lt n show ?thesis
      by (simp add: b bit_swap32 bit_swap64 bit_simps mask32 dm e)
  qed
qed

section \<open>The primitives reverse the byte sequence\<close>

lemma bit_byte_at: "bit (byte_at i w) m \<longleftrightarrow> m < 8 \<and> bit w (8 * i + m)"
  by (auto simp add: byte_at_def bit_simps)

lemma bit_of_bytes:
  "bit (of_bytes_lsb_first bs :: 'a::len word) n \<longleftrightarrow>
     n < LENGTH('a) \<and> n div 8 < length bs \<and> bit (bs ! (n div 8)) (n mod 8)"
proof (induction bs arbitrary: n)
  case Nil
  show ?case by simp
next
  case (Cons b bs)
  show ?case
  proof (cases "n < 8")
    case True
    then show ?thesis
      by (auto simp add: bit_simps dest: bit_imp_le_length)
  next
    case False
    then have ge: "8 \<le> n" by simp
    then have dm: "(n - 8) div 8 = n div 8 - 1" "(n - 8) mod 8 = n mod 8" and pos: "0 < n div 8"
      by (simp_all add: le_div_geq le_mod_geq)
    from pos obtain q where q: "n div 8 = Suc q"
      by (cases "n div 8") simp_all
    have nb: "\<not> bit b n"
      using False by (auto dest: bit_imp_le_length)
    have "bit (of_bytes_lsb_first (b # bs) :: 'a word) n
          \<longleftrightarrow> n < LENGTH('a) \<and> bit (of_bytes_lsb_first bs :: 'a word) (n - 8)"
      using ge nb by (auto simp add: bit_simps)
    also have "\<dots> \<longleftrightarrow> n < LENGTH('a) \<and> q < length bs \<and> bit (bs ! q) (n mod 8)"
      using ge by (auto simp add: Cons.IH dm q)
    also have "\<dots> \<longleftrightarrow> n < LENGTH('a) \<and> n div 8 < length (b # bs)
                      \<and> bit ((b # bs) ! (n div 8)) (n mod 8)"
      by (simp add: q)
    finally show ?thesis .
  qed
qed

lemma bit_reverse_bytes:
  "bit (reverse_bytes k w :: 'a::len word) n \<longleftrightarrow>
     n < LENGTH('a) \<and> n < 8 * k \<and> bit w (8 * (k - 1 - n div 8) + n mod 8)"
proof (cases "n < 8 * k")
  case True
  then have d: "n div 8 < k" by simp
  then have "k - Suc (n div 8) < k" by simp
  with d True show ?thesis
    by (simp add: reverse_bytes_def bit_of_bytes bytes_lsb_first_def rev_nth bit_byte_at)
next
  case False
  then have "\<not> n div 8 < k" by simp
  with False show ?thesis
    by (simp add: reverse_bytes_def bit_of_bytes bytes_lsb_first_def)
qed

lemma swap16_reverse_bytes: "generic_swap16 v = reverse_bytes 2 v"
  by (rule bit_word_eqI) (simp add: bit_swap16 bit_reverse_bytes)

lemma swap32_reverse_bytes: "generic_swap32 v = reverse_bytes 4 v"
  by (rule bit_word_eqI) (simp add: bit_swap32 bit_reverse_bytes)

lemma swap64_reverse_bytes: "generic_swap64 v = reverse_bytes 8 v"
  by (rule bit_word_eqI) (simp add: bit_swap64 bit_reverse_bytes)

lemma bytes_reverse_bytes:
  assumes "8 * k \<le> LENGTH('a)"
  shows "bytes_lsb_first k (reverse_bytes k w :: 'a::len word) = rev (bytes_lsb_first k w)"
proof (rule nth_equalityI)
  show "length (bytes_lsb_first k (reverse_bytes k w)) = length (rev (bytes_lsb_first k w))"
    by (simp add: bytes_lsb_first_def)
next
  fix i assume "i < length (bytes_lsb_first k (reverse_bytes k w))"
  then have i: "i < k" by (simp add: bytes_lsb_first_def)
  then have r: "rev (bytes_lsb_first k w) ! i = byte_at (k - 1 - i) w"
    by (simp add: bytes_lsb_first_def rev_nth)
  have "byte_at i (reverse_bytes k w) = byte_at (k - 1 - i) w"
  proof (rule bit_word_eqI)
    fix m assume "m < LENGTH(8)"
    then have m: "m < 8" by simp
    with i have "8 * i + m < 8 * k" by simp
    with assms have "8 * i + m < LENGTH('a)" by simp
    moreover from m have "(8 * i + m) div 8 = i" "(8 * i + m) mod 8 = m" by simp_all
    ultimately show "bit (byte_at i (reverse_bytes k w)) m = bit (byte_at (k - 1 - i) w) m"
      using m i by (simp add: bit_byte_at bit_reverse_bytes)
  qed
  with i r show "bytes_lsb_first k (reverse_bytes k w) ! i = rev (bytes_lsb_first k w) ! i"
    by (simp add: bytes_lsb_first_def)
qed

section \<open>The integer wrapper\<close>

lemma swap_sized_16: "swap_sized (v :: 16 word) = generic_swap16 v"
  by (simp add: swap_sized_def sizeof_T_def ucast_up_ucast_id is_up)

lemma swap_sized_32: "swap_sized (v :: 32 word) = generic_swap32 v"
  by (simp add: swap_sized_def sizeof_T_def ucast_up_ucast_id is_up)

lemma swap_sized_64: "swap_sized (v :: 64 word) = generic_swap64 v"
  by (simp add: swap_sized_def sizeof_T_def)

lemma endian_byte_order_twice_16:
  "endian_byte_order h b (endian_byte_order h b (v :: 16 word)) = v"
  by (simp add: endian_byte_order_def swap_sized_16 swap16_twice)

lemma endian_byte_order_twice_32:
  "endian_byte_order h b (endian_byte_order h b (v :: 32 word)) = v"
  by (simp add: endian_byte_order_def swap_sized_32 swap32_twice)

lemma endian_byte_order_twice_64:
  "endian_byte_order h b (endian_byte_order h b (v :: 64 word)) = v"
  by (simp add: endian_byte_order_def swap_sized_64 swap64_twice)

lemma endian_read_construct_16:
  "endian_read h b (endian_construct h b (v :: 16 word)) = v"
  by (simp add: endian_read_def endian_construct_def endian_byte_order_twice_16)

lemma endian_read_construct_32:
  "endian_read h b (endian_construct h b (v :: 32 word)) = v"
  by (simp add: endian_read_def endian_construct_def endian_byte_order_twice_32)

lemma endian_read_construct_64:
  "endian_read h b (endian_construct h b (v :: 64 word)) = v"
  by (simp add: endian_read_def endian_construct_def endian_byte_order_twice_64)

text \<open>
  C1. At each of the widths 16, 32 and 64, for either host order and either declared
  order, reading back a wrapper constructed from \<open>v\<close> returns \<open>v\<close>: the same bit pattern,
  hence the same value whether it is read as a signed (two's complement, negative values
  included) or as an unsigned integer.
\<close>

theorem endian_round_trip:
  "endian_read host_le is_big_endian (endian_construct host_le is_big_endian (a :: 16 word)) = a
   \<and> endian_read host_le is_big_endian (endian_construct host_le is_big_endian (b :: 32 word)) = b
   \<and> endian_read host_le is_big_endian (endian_construct host_le is_big_endian (c :: 64 word)) = c
   \<and> sint (endian_read host_le is_big_endian (endian_construct host_le is_big_endian a)) = sint a
   \<and> sint (endian_read host_le is_big_endian (endian_construct host_le is_big_endian b)) = sint b
   \<and> sint (endian_read host_le is_big_endian (endian_construct host_le is_big_endian c)) = sint c
   \<and> uint (endian_read host_le is_big_endian (endian_construct host_le is_big_endian a)) = uint a
   \<and> uint (endian_read host_le is_big_endian (endian_construct host_le is_big_endian b)) = uint b
   \<and> uint (endian_read host_le is_big_endian (endian_construct host_le is_big_endian c)) = uint c"
  by (simp only: endian_read_construct_16 endian_read_construct_32 endian_read_construct_64)

text \<open>
  C5. For the integer wrapper at each of the widths 16, 32 and 64, when the declared
  order differs from the host order (big-endian declared on a little-endian host, or
  little-endian declared on a host that is not little-endian), the stored bits after
  construction from \<open>v\<close> are the byte-reversal of the bit pattern of \<open>v\<close>.
\<close>

theorem endian_raw_mismatch:
  "endian_raw (endian_construct True True (a :: 16 word)) = reverse_bytes 2 a
   \<and> endian_raw (endian_construct False False a) = reverse_bytes 2 a
   \<and> endian_raw (endian_construct True True (b :: 32 word)) = reverse_bytes 4 b
   \<and> endian_raw (endian_construct False False b) = reverse_bytes 4 b
   \<and> endian_raw (endian_construct True True (c :: 64 word)) = reverse_bytes 8 c
   \<and> endian_raw (endian_construct False False c) = reverse_bytes 8 c"
  by (simp add: endian_raw_def endian_construct_def endian_byte_order_def
      swap_sized_16 swap_sized_32 swap_sized_64
      swap16_reverse_bytes swap32_reverse_bytes swap64_reverse_bytes)

text \<open>
  C6. For the integer wrapper at each of the widths 16, 32 and 64, when the declared
  order equals the host order, construction stores the bit pattern of \<open>v\<close> unchanged.
\<close>

theorem endian_raw_same_order:
  "endian_raw (endian_construct True False (a :: 16 word)) = a
   \<and> endian_raw (endian_construct False True a) = a
   \<and> endian_raw (endian_construct True False (b :: 32 word)) = b
   \<and> endian_raw (endian_construct False True b) = b
   \<and> endian_raw (endian_construct True False (c :: 64 word)) = c
   \<and> endian_raw (endian_construct False True c) = c"
  by (simp add: endian_raw_def endian_construct_def endian_byte_order_def)

text \<open>
  The invariant of the data model holds for the integer wrapper: the bytes that the
  stored field occupies in the memory of the host are the bytes of a buffer that holds
  the value in the declared order.
\<close>

lemma memory_swapped:
  fixes v :: "'a::len word"
  assumes "8 * k \<le> LENGTH('a)" and "swap_sized v = reverse_bytes k v"
  shows "memory_bytes h k (endian_byte_order h b v) = buffer_bytes b k v"
  using assms(2) bytes_reverse_bytes [OF assms(1), of v]
  by (cases h; cases b) (simp_all add: memory_bytes_def buffer_bytes_def endian_byte_order_def)

lemma endian_memory_declared_order:
  "memory_bytes h 2 (endian_raw (endian_construct h b (x :: 16 word))) = buffer_bytes b 2 x"
  "memory_bytes h 4 (endian_raw (endian_construct h b (y :: 32 word))) = buffer_bytes b 4 y"
  "memory_bytes h 8 (endian_raw (endian_construct h b (z :: 64 word))) = buffer_bytes b 8 z"
  by (simp_all add: endian_raw_def endian_construct_def memory_swapped
      swap_sized_16 swap_sized_32 swap_sized_64
      swap16_reverse_bytes swap32_reverse_bytes swap64_reverse_bytes)

text \<open>Assignment stores what construction from the same value stores.\<close>

lemma endian_assign_stores:
  "endian_raw (endian_assign h b this v) = endian_raw (endian_construct h b v)"
  by (simp add: endian_raw_def endian_assign_def endian_construct_def)

lemma endian_default_zero:
  "endian_raw (endian_default :: 'a::len word generic_endian) = 0"
  by (simp add: endian_raw_def endian_default_def)

section \<open>The float and double wrappers\<close>

text \<open>
  C7. The float wrapper with big-endian declared order on a little-endian host,
  constructed from \<open>1.0f\<close> (bit pattern \<open>0x3F800000\<close>), stores \<open>0x0000803F\<close>, and reading it
  returns \<open>0x3F800000\<close>, whatever the uninitialised locals hold.
\<close>

theorem float_be_one:
  "float_raw (float_construct True True g 0x3F800000) = 0x0000803F
   \<and> float_read True True g' (float_construct True True g 0x3F800000) = 0x3F800000"
proof -
  have s: "generic_swap32 0x3F800000 = 0x0000803F" by code_simp
  have "generic_swap32 (generic_swap32 0x3F800000) = 0x3F800000" by (rule swap32_twice)
  then have t: "generic_swap32 0x0000803F = 0x3F800000" by (simp only: s)
  show ?thesis
    by (simp add: float_raw_def float_read_def float_construct_def float_byte_order_def s t)
qed

text \<open>
  Where the float wrapper swaps, and in the double wrapper throughout, reading what was
  constructed gives the pattern back: the float because the reversal is its own inverse,
  the double because its conversion changes nothing.
\<close>

lemma float_round_trip_mismatch:
  "float_read True True g' (float_construct True True g v) = v"
  "float_read False False g' (float_construct False False g v) = v"
  by (simp_all add: float_read_def float_construct_def float_byte_order_def swap32_twice)

lemma double_byte_order_id: "double_byte_order h b v = v"
  by (simp add: double_byte_order_def Let_def)

lemma double_round_trip: "double_read h b (double_construct h b v) = v"
  by (simp add: double_read_def double_construct_def double_byte_order_id)

lemma float_assign_stores:
  "float_raw (float_assign h b g this v) = float_raw (float_construct h b g v)"
  by (simp add: float_raw_def float_assign_def float_construct_def)

lemma double_assign_stores:
  "double_raw (double_assign h b this v) = double_raw (double_construct h b v)"
  by (simp add: double_raw_def double_assign_def double_construct_def)

lemma float_default_mismatch_zero:
  "float_raw (float_default True True g) = 0"
  "float_raw (float_default False False g) = 0"
proof -
  have "generic_swap32 0 = 0" by code_simp
  then show "float_raw (float_default True True g) = 0"
    and "float_raw (float_default False False g) = 0"
    by (simp_all add: float_raw_def float_default_def float_byte_order_def)
qed

lemma double_default_zero: "double_raw (double_default h b) = 0"
  by (simp add: double_raw_def double_default_def double_byte_order_id)

text \<open>
  C2. The claim asks that reading a float or double wrapper constructed from \<open>v\<close> gives
  back the bit pattern of \<open>v\<close> for both declared orders. For the float wrapper whose
  declared order is the host order (little-endian declared on a little-endian host) the
  conversion never writes \<open>ret\<close> and returns its indeterminate content: the value read is
  the content of that local at the time of the read, whatever \<open>v\<close> was. With the local at
  zero, \<open>1.0f\<close> is read back as \<open>0x00000000\<close>.
\<close>

theorem float_same_order_reads_garbage:
  "float_read True False g' (float_construct True False g v) = g'
   \<and> float_read True False 0 (float_construct True False 0 0x3F800000) = 0"
  by (simp add: float_read_def float_construct_def float_byte_order_def)

text \<open>
  C3. The claim asks that the stored bits of every wrapper are the value in the declared
  order. The double wrapper with big-endian declared order on a little-endian host,
  constructed from \<open>1.0\<close> (bit pattern \<open>0x3FF0000000000000\<close>), stores that pattern
  unconverted: in memory it occupies the bytes \<open>00 00 00 00 00 00 F0 3F\<close>, where a
  big-endian buffer holds \<open>3F F0 00 00 00 00 00 00\<close>.
\<close>

theorem double_be_stores_host_order:
  "double_raw (double_construct True True 0x3FF0000000000000) = 0x3FF0000000000000
   \<and> memory_bytes True 8 (double_raw (double_construct True True 0x3FF0000000000000))
       = [0, 0, 0, 0, 0, 0, 0xF0, 0x3F]
   \<and> buffer_bytes True 8 (0x3FF0000000000000 :: double_bits)
       = [0x3F, 0xF0, 0, 0, 0, 0, 0, 0]"
proof -
  have r: "double_raw (double_construct True True 0x3FF0000000000000) = 0x3FF0000000000000"
    by (simp add: double_raw_def double_construct_def double_byte_order_def)
  have m: "memory_bytes True 8 (0x3FF0000000000000 :: double_bits)
           = [0, 0, 0, 0, 0, 0, 0xF0, 0x3F]"
    by code_simp
  have b: "buffer_bytes True 8 (0x3FF0000000000000 :: double_bits)
           = [0x3F, 0xF0, 0, 0, 0, 0, 0, 0]"
    by code_simp
  show ?thesis by (simp only: r m b)
qed

text \<open>
  C8. The claim asks that default construction yields the all-zero pattern for every
  wrapper. The default constructor of the float wrapper converts \<open>0.0\<close>; when the declared
  order is the host order (little-endian declared on a little-endian host) the
  conversion returns the indeterminate content of \<open>ret\<close>, and that is what is stored.
\<close>

theorem float_default_same_order_garbage:
  "float_raw (float_default True False g) = g
   \<and> float_raw (float_default True False 0xDEADBEEF) = 0xDEADBEEF"
  by (simp add: float_raw_def float_default_def float_byte_order_def)

section \<open>Copies and the 8-bit aliases\<close>

text \<open>
  C9. Copy-constructing a wrapper from a wrapper of the same type leaves the stored bits
  as they are in the source, for the integer wrapper at each width, the float wrapper and
  the double wrapper; the declared order plays no part.
\<close>

theorem copy_keeps_raw:
  "endian_raw (endian_copy (u :: 16 word generic_endian)) = endian_raw u
   \<and> endian_raw (endian_copy (v :: 32 word generic_endian)) = endian_raw v
   \<and> endian_raw (endian_copy (w :: 64 word generic_endian)) = endian_raw w
   \<and> float_raw (float_copy f) = float_raw f
   \<and> double_raw (double_copy d) = double_raw d"
  by (simp add: endian_raw_def endian_copy_def float_raw_def float_copy_def
      double_raw_def double_copy_def)

text \<open>
  C10. The 8-bit tagged names denote the native 8-bit types: initialisation, assignment
  and read are the identity on every 8-bit value, the big-endian and the little-endian
  variant hold the same representation, and the single byte in memory is the value
  itself, which is also what a buffer of either order holds.
\<close>

theorem eight_bit_aliases:
  "native_read (native_init (v :: uint8_t) :: uint8_be) = v
   \<and> native_read (native_init v :: uint8_le) = v
   \<and> native_read (native_assign (x :: uint8_be) v) = v
   \<and> native_read (native_assign (y :: uint8_le) v) = v
   \<and> native_read (native_init (s :: int8_t) :: int8_be) = s
   \<and> native_read (native_init s :: int8_le) = s
   \<and> native_read (native_assign (p :: int8_be) s) = s
   \<and> native_read (native_assign (q :: int8_le) s) = s
   \<and> (native_init v :: uint8_be) = (native_init v :: uint8_le)
   \<and> (native_init s :: int8_be) = (native_init s :: int8_le)
   \<and> memory_bytes host_le 1 (native_init v :: uint8_be) = [v]
   \<and> memory_bytes host_le 1 (native_init v :: uint8_le) = [v]
   \<and> buffer_bytes True 1 v = [v] \<and> buffer_bytes False 1 v = [v]"
  by (simp add: native_read_def native_init_def native_assign_def memory_bytes_def
      buffer_bytes_def bytes_lsb_first_def byte_at_def)

end
